theory Spec2Isabelle
  imports
    Complex_Main
    "HOL-Library.AList"
    "HOL-Library.Char_ord"
    "HOL-Library.List_Lexorder"
    "HOL-Library.Multiset"
    "HOL-Library.Sublist"
begin

section \<open>Data model\<close>

text \<open>
  A holding row is a JSON array of scalar fields. By position, field 0 is the ticker,
  field 1 the name and field 2 the weight. A field is a JSON string or a JSON number;
  numbers, and the floats that \<^verbatim>\<open>float()\<close> returns, are exact rationals here, so
  the rounding of binary floating point is outside this development.
\<close>

datatype field = FStr string | FNum rat

type_synonym row = "field list"

text \<open>The value \<^verbatim>\<open>{'name': name, 'weight': weight}\<close> stored per ticker.\<close>

record named =
  name :: field

record info = named +
  weight :: field

text \<open>\<^verbatim>\<open>{'ticker': t, 'name': ...}\<close>, and the weight change entry that extends it.\<close>

record holding = named +
  ticker :: field

record weight_change = holding +
  previous_weight :: rat
  current_weight :: rat
  change :: rat

text \<open>
  A Python \<^verbatim>\<open>dict\<close> keeps its keys in insertion order and assigning to a key that
  is present replaces the value in place: an association list under \<open>AList.update\<close>.
\<close>

type_synonym 'v dict = "(field \<times> 'v) list"

text \<open>
  The previous snapshot as \<^verbatim>\<open>json.load\<close> returns it: a non-empty object whose keys
  \<^verbatim>\<open>'date'\<close> and \<^verbatim>\<open>'holdings'\<close> may be absent (\<^verbatim>\<open>.get\<close> then supplies a default).
\<close>

record snapshot =
  snap_date :: "string option"
  snap_holdings :: "row list option"

record success =
  date :: string
  previous_date :: string
  total_holdings :: nat
  new_holdings :: "holding list"
  removed_holdings :: "holding list"
  weight_changes :: "weight_change list"
  significant_changes :: nat

datatype comparison = FirstRun nat | Success success

datatype py_error = KeyError

text \<open>
  What the interpreter supplies and the repository does not define:
  \<^item> \<open>float_of s\<close> is \<^verbatim>\<open>float(s)\<close>, with \<open>None\<close> for \<^verbatim>\<open>ValueError\<close>;
  \<^item> \<open>str_num r\<close> is \<^verbatim>\<open>str(r)\<close> of a number;
  \<^item> \<open>set_order xs\<close> is the order in which iterating a hash set visits the elements
    \<open>xs\<close>; a set is represented by a list of its elements.
\<close>

record runtime =
  float_of :: "string \<Rightarrow> rat option"
  str_num :: "rat \<Rightarrow> string"
  set_order :: "field list \<Rightarrow> field list"

definition iterates_sets :: "runtime \<Rightarrow> bool" where
  "iterates_sets rt = (\<forall>xs. mset (set_order rt xs) = mset xs)"

section \<open>Strings\<close>

fun py_str :: "runtime \<Rightarrow> field \<Rightarrow> string" where
  "py_str rt (FStr s) = s"
| "py_str rt (FNum r) = str_num rt r"

text \<open>\<^verbatim>\<open>bool(x)\<close>: the empty string and zero are false.\<close>

fun truthy :: "field \<Rightarrow> bool" where
  "truthy (FStr s) = (s \<noteq> [])"
| "truthy (FNum r) = (r \<noteq> 0)"

text \<open>\<^verbatim>\<open>s.replace('%', '')\<close> deletes every occurrence of the character.\<close>

definition replace_percent :: "string \<Rightarrow> string" where
  "replace_percent s = filter (\<lambda>c. c \<noteq> CHR ''%'') s"

text \<open>
  \<^verbatim>\<open>str.isspace\<close> on the code points below 256: tab to carriage return, the four
  separators 28 to 31, space, next line and no-break space.
\<close>

definition isspace :: "char \<Rightarrow> bool" where
  "isspace c =
     (let n = (of_char c :: nat)
      in (9 \<le> n \<and> n \<le> 13) \<or> (28 \<le> n \<and> n \<le> 32) \<or> n = 133 \<or> n = 160)"

definition strip :: "string \<Rightarrow> string" where
  "strip s = rev (dropWhile isspace (rev (dropWhile isspace s)))"

section \<open>Sorting\<close>

text \<open>
  \<^verbatim>\<open>sorted(xs, key=k, reverse=True)\<close>: the list is reversed, sorted stably in
  ascending order of the key, and reversed again, so equal keys keep their order.
\<close>

definition sorted_reverse :: "('a \<Rightarrow> 'k::linorder) \<Rightarrow> 'a list \<Rightarrow> 'a list" where
  "sorted_reverse k xs = rev (sort_key k (rev xs))"

section \<open>Store\<close>

text \<open>
  The data directory: file names with, for each, what opening and \<^verbatim>\<open>json.load\<close>
  give (\<open>None\<close> when either raises). Names in a directory are distinct.
\<close>

type_synonym directory = "(string \<times> snapshot option) list"

text \<open>\<^verbatim>\<open>glob("holdings_*.json")\<close>: the star matches any run of characters.\<close>

definition glob_holdings :: "directory \<Rightarrow> directory" where
  "glob_holdings dir =
     filter (\<lambda>f. prefix ''holdings_'' (fst f) \<and> suffix ''.json'' (fst f)
                  \<and> 14 \<le> length (fst f)) dir"

definition load_previous_holdings :: "directory \<Rightarrow> snapshot option" where
  "load_previous_holdings dir =
     (let files = sorted_reverse fst (glob_holdings dir)
      in if length files < 2 then None
         else (let prev_file = files ! 1 in snd prev_file))"

section \<open>Differ\<close>

definition getitem :: "'v dict \<Rightarrow> field \<Rightarrow> py_error + 'v" where
  "getitem d k = (case map_of d k of None \<Rightarrow> Inl KeyError | Some v \<Rightarrow> Inr v)"

definition extract_row :: "info dict \<Rightarrow> row \<Rightarrow> info dict" where
  "extract_row info h =
     (if 3 \<le> length h then
        (let ticker = h ! 0;
             name = (if 1 < length h then h ! 1 else FStr '''');
             weight = (if 2 < length h then h ! 2 else FStr ''0'')
         in AList.update ticker \<lparr>name = name, weight = weight\<rparr> info)
      else info)"

definition extract_info :: "row list \<Rightarrow> info dict" where
  "extract_info holdings = foldl extract_row [] holdings"

text \<open>
  The two conversions inside the \<^verbatim>\<open>try\<close>: \<open>None\<close> is the \<^verbatim>\<open>ValueError\<close> that the
  handler turns into \<^verbatim>\<open>continue\<close>.
\<close>

definition weight_str :: "runtime \<Rightarrow> field \<Rightarrow> string" where
  "weight_str rt w = strip (replace_percent (py_str rt w))"

definition to_weight :: "runtime \<Rightarrow> string \<Rightarrow> rat option" where
  "to_weight rt s = (if s \<noteq> [] then float_of rt s else Some 0)"

text \<open>One pass of the loop body for a ticker: the entry to append, if any.\<close>

definition weight_entry ::
  "runtime \<Rightarrow> field \<Rightarrow> info \<Rightarrow> info \<Rightarrow> weight_change option" where
  "weight_entry rt t c p =
     (let curr_weight_str = weight_str rt (weight c);
          prev_weight_str = weight_str rt (weight p)
      in case to_weight rt curr_weight_str of
           None \<Rightarrow> None
         | Some curr_weight \<Rightarrow>
             (case to_weight rt prev_weight_str of
                None \<Rightarrow> None
              | Some prev_weight \<Rightarrow>
                  if \<bar>curr_weight - prev_weight\<bar> > 1 / 100 then
                    Some \<lparr>name = name c, ticker = t,
                          previous_weight = prev_weight, current_weight = curr_weight,
                          change = curr_weight - prev_weight\<rparr>
                  else None))"

fun weight_loop ::
  "runtime \<Rightarrow> info dict \<Rightarrow> info dict \<Rightarrow> field list \<Rightarrow> weight_change list
     \<Rightarrow> py_error + weight_change list" where
  "weight_loop rt current_info previous_info [] acc = Inr acc"
| "weight_loop rt current_info previous_info (t # ts) acc =
     (case getitem current_info t of
        Inl e \<Rightarrow> Inl e
      | Inr c \<Rightarrow>
          (case getitem previous_info t of
             Inl e \<Rightarrow> Inl e
           | Inr p \<Rightarrow>
               weight_loop rt current_info previous_info ts
                 (case weight_entry rt t c p of None \<Rightarrow> acc | Some w \<Rightarrow> acc @ [w])))"

text \<open>The comprehension \<^verbatim>\<open>[{'ticker': t, 'name': d[t]['name']} for t in ts]\<close>.\<close>

fun holdings_of :: "info dict \<Rightarrow> field list \<Rightarrow> py_error + holding list" where
  "holdings_of d [] = Inr []"
| "holdings_of d (t # ts) =
     (case getitem d t of
        Inl e \<Rightarrow> Inl e
      | Inr i \<Rightarrow>
          (case holdings_of d ts of
             Inl e \<Rightarrow> Inl e
           | Inr hs \<Rightarrow> Inr (\<lparr>name = name i, ticker = t\<rparr> # hs)))"

definition set_difference :: "field list \<Rightarrow> field list \<Rightarrow> field list" where
  "set_difference xs ys = filter (\<lambda>t. t \<notin> set ys) xs"

definition set_intersection :: "field list \<Rightarrow> field list \<Rightarrow> field list" where
  "set_intersection xs ys = filter (\<lambda>t. t \<in> set ys) xs"

text \<open>\<^verbatim>\<open>previous_data.get('holdings', [])\<close> and \<^verbatim>\<open>previous_data.get('date', 'Unknown')\<close>.\<close>

definition get_holdings :: "snapshot \<Rightarrow> row list" where
  "get_holdings prev = (case snap_holdings prev of None \<Rightarrow> [] | Some hs \<Rightarrow> hs)"

definition get_date :: "snapshot \<Rightarrow> string" where
  "get_date prev = (case snap_date prev of None \<Rightarrow> ''Unknown'' | Some d \<Rightarrow> d)"

definition compare_holdings ::
  "runtime \<Rightarrow> string \<Rightarrow> row list \<Rightarrow> snapshot option \<Rightarrow> py_error + comparison" where
  "compare_holdings rt today current_holdings previous_data =
     (case previous_data of
        None \<Rightarrow> Inr (FirstRun (length current_holdings))
      | Some prev \<Rightarrow>
          (let previous_holdings = get_holdings prev;
               current_info = extract_info current_holdings;
               previous_info = extract_info previous_holdings;
               current_tickers = map fst current_info;
               previous_tickers = map fst previous_info;
               new = set_difference current_tickers previous_tickers;
               removed = set_difference previous_tickers current_tickers;
               both = set_intersection current_tickers previous_tickers
           in case weight_loop rt current_info previous_info (set_order rt both) [] of
                Inl e \<Rightarrow> Inl e
              | Inr changes \<Rightarrow>
                  (case holdings_of current_info (set_order rt new) of
                     Inl e \<Rightarrow> Inl e
                   | Inr added \<Rightarrow>
                       (case holdings_of previous_info (set_order rt removed) of
                          Inl e \<Rightarrow> Inl e
                        | Inr dropped \<Rightarrow>
                            Inr (Success
                              \<lparr>date = today,
                               previous_date = get_date prev,
                               total_holdings = length current_holdings,
                               new_holdings = added,
                               removed_holdings = dropped,
                               weight_changes = sorted_reverse (\<lambda>x. \<bar>change x\<bar>) changes,
                               significant_changes =
                                 length new + length removed + length changes\<rparr>)))))"

section \<open>Reporter\<close>

text \<open>
  The report is the list of strings that \<^verbatim>\<open>generate_report\<close> appends, joined by
  newlines at the end. Each appended string is one item, named after its text, with the
  interpolated values as arguments:
  \<^item> \<open>Rule\<close>, \<open>NlRule\<close>: seventy \<^verbatim>\<open>=\<close>, without and with a leading newline;
  \<^item> \<open>Dashes\<close>, \<open>NlDashes\<close>: seventy box-drawing dashes, likewise;
  \<^item> \<open>NameLine n\<close>: the indented name under a ticker line;
  \<^item> \<open>WeightTicker up t\<close>: the arrow (up when the change is positive) and the ticker;
  \<^item> \<open>WeightLine p c d\<close>: previous, current and signed change, three decimals each;
  \<^item> \<open>MoreChanges n\<close>: \<^verbatim>\<open>... and n more weight changes\<close>;
  \<^item> \<open>NoChanges\<close>: \<^verbatim>\<open>No significant changes detected since last update\<close>.
\<close>

datatype item =
    Rule
  | NlRule
  | Title
  | ReportDate string
  | TotalHoldings nat
  | FirstCollection
  | NoHistory
  | StartingTomorrow
  | ComparingWith string
  | TotalChanges nat
  | Dashes
  | NlDashes
  | NewHeader nat
  | NewTicker field
  | RemovedHeader nat
  | RemovedTicker field
  | NameLine field
  | WeightHeader
  | WeightTicker bool field
  | WeightLine rat rat rat
  | MoreChanges nat
  | NoChanges
  | Generated string

definition new_items :: "holding list \<Rightarrow> item list" where
  "new_items hs =
     concat (map (\<lambda>h. NewTicker (ticker h) #
                        (if truthy (name h) then [NameLine (name h)] else [])) hs)"

definition removed_items :: "holding list \<Rightarrow> item list" where
  "removed_items hs =
     concat (map (\<lambda>h. RemovedTicker (ticker h) #
                        (if truthy (name h) then [NameLine (name h)] else [])) hs)"

definition weight_items :: "weight_change list \<Rightarrow> item list" where
  "weight_items ws =
     concat (map (\<lambda>c. WeightTicker (change c > 0) (ticker c) #
                        (if truthy (name c) then [NameLine (name c)] else []) @
                        [WeightLine (previous_weight c) (current_weight c) (change c)]) ws)"

fun generate_report :: "string \<Rightarrow> comparison \<Rightarrow> item list" where
  "generate_report now (FirstRun n) =
     [Rule, Title, Rule, ReportDate ''N/A''] @
     [TotalHoldings n, FirstCollection, NoHistory, StartingTomorrow] @
     [NlRule, Generated now, Rule]"
| "generate_report now (Success c) =
     [Rule, Title, Rule, ReportDate (date c)] @
     [ComparingWith (previous_date c), TotalHoldings (total_holdings c),
      TotalChanges (significant_changes c)] @
     (if new_holdings c \<noteq> [] then
        [NlDashes, NewHeader (length (new_holdings c)), Dashes] @
        new_items (new_holdings c)
      else []) @
     (if removed_holdings c \<noteq> [] then
        [NlDashes, RemovedHeader (length (removed_holdings c)), Dashes] @
        removed_items (removed_holdings c)
      else []) @
     (if weight_changes c \<noteq> [] then
        [NlDashes, WeightHeader, Dashes] @
        weight_items (take 10 (weight_changes c)) @
        (if length (weight_changes c) > 10
         then [MoreChanges (length (weight_changes c) - 10)] else [])
      else []) @
     (if significant_changes c = 0 then [NlDashes, NoChanges, Dashes] else []) @
     [NlRule, Generated now, Rule]"

section \<open>A runtime for examples\<close>

text \<open>
  \<^verbatim>\<open>float()\<close> on plain decimal literals: an optional sign, digits, and an optional
  point followed by digits, with a digit on at least one side of the point. The other
  spellings \<^verbatim>\<open>float()\<close> accepts (exponents, underscores, \<^verbatim>\<open>inf\<close>, \<^verbatim>\<open>nan\<close>) do not
  occur in the examples and are rejected by this function.
\<close>

definition digit :: "char \<Rightarrow> nat option" where
  "digit c =
     (let n = (of_char c :: nat) in if 48 \<le> n \<and> n \<le> 57 then Some (n - 48) else None)"

fun digits_value :: "nat \<Rightarrow> string \<Rightarrow> nat option" where
  "digits_value acc [] = Some acc"
| "digits_value acc (c # cs) =
     (case digit c of None \<Rightarrow> None | Some d \<Rightarrow> digits_value (10 * acc + d) cs)"

definition decimal_float :: "string \<Rightarrow> rat option" where
  "decimal_float s =
     (let signed = (take 1 s = ''-'' \<or> take 1 s = ''+'');
          body = (if signed then drop 1 s else s);
          whole = takeWhile (\<lambda>c. c \<noteq> CHR ''.'') body;
          frac = drop 1 (dropWhile (\<lambda>c. c \<noteq> CHR ''.'') body)
      in if whole = [] \<and> frac = [] then None
         else (case digits_value 0 whole of
                 None \<Rightarrow> None
               | Some i \<Rightarrow>
                   (case digits_value 0 frac of
                      None \<Rightarrow> None
                    | Some f \<Rightarrow>
                        Some ((if take 1 s = ''-'' then - 1 else 1) *
                              (of_nat i + of_nat f / 10 ^ length frac)))))"

text \<open>\<^verbatim>\<open>str()\<close> of a whole number, which is how a JSON integer prints.\<close>

fun str_nat :: "nat \<Rightarrow> string" where
  "str_nat n =
     (if n < 10 then [char_of (48 + n)]
      else str_nat (n div 10) @ [char_of (48 + n mod 10)])"

definition str_whole :: "rat \<Rightarrow> string" where
  "str_whole r = (if r < 0 then ''-'' else []) @ str_nat (nat \<lfloor>\<bar>r\<bar>\<rfloor>)"

text \<open>Sets iterate in the order of their representing list.\<close>

definition example_runtime :: runtime where
  "example_runtime =
     \<lparr>float_of = decimal_float, str_num = str_whole, set_order = (\<lambda>xs. xs)\<rparr>"

section \<open>The weight string as the specification words it\<close>

text \<open>
  The specification says that the weight is parsed after stripping a trailing \<^verbatim>\<open>%\<close>
  and surrounding whitespace. This definition follows those words, to be compared with
  \<open>weight_str\<close>, which follows the source.
\<close>

definition spec_weight_str :: "runtime \<Rightarrow> field \<Rightarrow> string" where
  "spec_weight_str rt w =
     (let s = strip (py_str rt w)
      in strip (if s \<noteq> [] \<and> last s = CHR ''%'' then butlast s else s))"

section \<open>The comparison never raises\<close>

text \<open>
  The entries the loop appends, in the order of the loop, once every lookup is known to
  succeed.
\<close>

abbreviation entries ::
  "runtime \<Rightarrow> info dict \<Rightarrow> info dict \<Rightarrow> field list \<Rightarrow> weight_change list" where
  "entries rt cinfo pinfo ts \<equiv>
     List.map_filter (\<lambda>t. weight_entry rt t (the (map_of cinfo t)) (the (map_of pinfo t))) ts"

lemma distinct_extract_row:
  "distinct (map fst d) \<Longrightarrow> distinct (map fst (extract_row d h))"
  by (simp add: extract_row_def Let_def distinct_update)

lemma distinct_foldl_extract:
  "distinct (map fst d) \<Longrightarrow> distinct (map fst (foldl extract_row d hs))"
  by (induction hs arbitrary: d) (simp_all add: distinct_extract_row)

lemma distinct_extract_info: "distinct (map fst (extract_info hs))"
  by (simp add: extract_info_def distinct_foldl_extract)

lemma getitem_present: "map_of d k = Some v \<Longrightarrow> getitem d k = Inr v"
  by (simp add: getitem_def)

lemma map_of_key: "k \<in> fst ` set d \<Longrightarrow> map_of d k = Some (the (map_of d k))"
  by (metis option.collapse map_of_eq_None_iff)

lemma weight_loop_total:
  "set ts \<subseteq> fst ` set cinfo \<Longrightarrow> set ts \<subseteq> fst ` set pinfo \<Longrightarrow>
   weight_loop rt cinfo pinfo ts acc = Inr (acc @ entries rt cinfo pinfo ts)"
proof (induction ts arbitrary: acc)
  case Nil
  then show ?case by simp
next
  case (Cons t ts)
  from Cons.prems have c: "getitem cinfo t = Inr (the (map_of cinfo t))"
    and p: "getitem pinfo t = Inr (the (map_of pinfo t))"
    using getitem_present map_of_key by (metis list.set_intros(1) subsetD)+
  from Cons.prems have sub: "set ts \<subseteq> fst ` set cinfo" "set ts \<subseteq> fst ` set pinfo"
    by auto
  show ?case
    by (simp add: c p Cons.IH[OF sub] split: option.split)
qed

lemma holdings_of_total:
  "set ts \<subseteq> fst ` set d \<Longrightarrow>
   holdings_of d ts = Inr (map (\<lambda>t. \<lparr>name = name (the (map_of d t)), ticker = t\<rparr>) ts)"
proof (induction ts)
  case Nil
  then show ?case by simp
next
  case (Cons t ts)
  from Cons.prems have c: "getitem d t = Inr (the (map_of d t))"
    using getitem_present map_of_key by (metis list.set_intros(1) subsetD)
  from Cons.prems have sub: "set ts \<subseteq> fst ` set d" by auto
  show ?case by (simp add: c Cons.IH[OF sub])
qed

lemma set_set_order: "iterates_sets rt \<Longrightarrow> set (set_order rt xs) = set xs"
  by (metis iterates_sets_def set_mset_mset)

lemma length_set_order: "iterates_sets rt \<Longrightarrow> length (set_order rt xs) = length xs"
  by (metis iterates_sets_def size_mset)

lemma distinct_set_order: "iterates_sets rt \<Longrightarrow> distinct (set_order rt xs) = distinct xs"
  by (metis iterates_sets_def mset_eq_imp_distinct_iff)

lemma iterates_sets_example: "iterates_sets example_runtime"
  by (simp add: iterates_sets_def example_runtime_def)

lemma compare_holdings_Some:
  assumes "iterates_sets rt"
  shows "compare_holdings rt today cur (Some prev) =
     Inr (Success
       \<lparr>date = today, previous_date = get_date prev, total_holdings = length cur,
        new_holdings =
          map (\<lambda>t. \<lparr>name = name (the (map_of (extract_info cur) t)), ticker = t\<rparr>)
            (set_order rt (set_difference (map fst (extract_info cur))
                             (map fst (extract_info (get_holdings prev))))),
        removed_holdings =
          map (\<lambda>t. \<lparr>name = name (the (map_of (extract_info (get_holdings prev)) t)),
                     ticker = t\<rparr>)
            (set_order rt (set_difference (map fst (extract_info (get_holdings prev)))
                             (map fst (extract_info cur)))),
        weight_changes =
          sorted_reverse (\<lambda>x. \<bar>change x\<bar>)
            (entries rt (extract_info cur) (extract_info (get_holdings prev))
               (set_order rt (set_intersection (map fst (extract_info cur))
                                (map fst (extract_info (get_holdings prev)))))),
        significant_changes =
          length (set_difference (map fst (extract_info cur))
                    (map fst (extract_info (get_holdings prev)))) +
          length (set_difference (map fst (extract_info (get_holdings prev)))
                    (map fst (extract_info cur))) +
          length (entries rt (extract_info cur) (extract_info (get_holdings prev))
               (set_order rt (set_intersection (map fst (extract_info cur))
                                (map fst (extract_info (get_holdings prev))))))\<rparr>)"
proof -
  let ?ci = "extract_info cur" and ?pi = "extract_info (get_holdings prev)"
  let ?both = "set_order rt (set_intersection (map fst ?ci) (map fst ?pi))"
  let ?new = "set_order rt (set_difference (map fst ?ci) (map fst ?pi))"
  let ?rem = "set_order rt (set_difference (map fst ?pi) (map fst ?ci))"
  have b: "set ?both \<subseteq> fst ` set ?ci" "set ?both \<subseteq> fst ` set ?pi"
    using assms by (auto simp: set_set_order set_intersection_def)
  have n: "set ?new \<subseteq> fst ` set ?ci"
    using assms by (auto simp: set_set_order set_difference_def)
  have r: "set ?rem \<subseteq> fst ` set ?pi"
    using assms by (auto simp: set_set_order set_difference_def)
  show ?thesis
    unfolding compare_holdings_def Let_def
    by (simp add: weight_loop_total[OF b] holdings_of_total[OF n] holdings_of_total[OF r])
qed

section \<open>Facts about the mapping, the loop and the sort\<close>

lemma map_of_extract_row:
  "map_of (extract_row d h) k =
     (if 3 \<le> length h \<and> h ! 0 = k then Some \<lparr>name = h ! 1, weight = h ! 2\<rparr>
      else map_of d k)"
  by (simp add: extract_row_def Let_def update_conv')

lemma map_of_foldl_extract_other:
  "\<forall>g \<in> set hs. 3 \<le> length g \<longrightarrow> g ! 0 \<noteq> k \<Longrightarrow>
   map_of (foldl extract_row d hs) k = map_of d k"
proof (induction hs arbitrary: d)
  case Nil
  then show ?case by simp
next
  case (Cons a hs)
  then have "map_of (foldl extract_row (extract_row d a) hs) k = map_of (extract_row d a) k"
    by simp
  also from Cons.prems have "\<dots> = map_of d k"
    by (auto simp: map_of_extract_row)
  finally show ?case by simp
qed

lemma set_map_filter: "set (List.map_filter f xs) = {y. \<exists>x \<in> set xs. f x = Some y}"
  by (induction xs) (auto split: option.splits)

lemma set_sorted_reverse: "set (sorted_reverse k xs) = set xs"
  by (simp add: sorted_reverse_def)

lemma weight_entry_Some:
  "weight_entry rt t c p = Some w \<Longrightarrow>
     ticker w = t \<and> name w = name c \<and>
     (\<exists>cw pw. to_weight rt (weight_str rt (weight c)) = Some cw \<and>
              to_weight rt (weight_str rt (weight p)) = Some pw \<and>
              \<bar>cw - pw\<bar> > 1 / 100 \<and> current_weight w = cw \<and> previous_weight w = pw \<and>
              change w = cw - pw)"
  unfolding weight_entry_def Let_def
  by (auto split: option.splits if_splits)

lemma in_both:
  "iterates_sets rt \<Longrightarrow>
   set (set_order rt (set_intersection (map fst c) (map fst p))) = fst ` set c \<inter> fst ` set p"
  by (auto simp: set_set_order set_intersection_def)

lemma compare_success_fields:
  assumes "iterates_sets rt"
    and "compare_holdings rt today cur (Some prev) = Inr (Success r)"
  shows "weight_changes r =
      sorted_reverse (\<lambda>x. \<bar>change x\<bar>)
        (entries rt (extract_info cur) (extract_info (get_holdings prev))
           (set_order rt (set_intersection (map fst (extract_info cur))
                            (map fst (extract_info (get_holdings prev))))))"
    and "new_holdings r =
          map (\<lambda>t. \<lparr>name = name (the (map_of (extract_info cur) t)), ticker = t\<rparr>)
            (set_order rt (set_difference (map fst (extract_info cur))
                             (map fst (extract_info (get_holdings prev)))))"
    and "removed_holdings r =
          map (\<lambda>t. \<lparr>name = name (the (map_of (extract_info (get_holdings prev)) t)),
                     ticker = t\<rparr>)
            (set_order rt (set_difference (map fst (extract_info (get_holdings prev)))
                             (map fst (extract_info cur))))"
    and "total_holdings r = length cur"
    and "date r = today"
    and "previous_date r = get_date prev"
    and "significant_changes r =
          length (new_holdings r) + length (removed_holdings r) + length (weight_changes r)"
proof -
  note eq = assms(2)[unfolded compare_holdings_Some[OF assms(1)] sum.inject comparison.inject,
      symmetric]
  show wc: "weight_changes r =
      sorted_reverse (\<lambda>x. \<bar>change x\<bar>)
        (entries rt (extract_info cur) (extract_info (get_holdings prev))
           (set_order rt (set_intersection (map fst (extract_info cur))
                            (map fst (extract_info (get_holdings prev))))))"
    by (subst eq) simp
  show nh: "new_holdings r =
          map (\<lambda>t. \<lparr>name = name (the (map_of (extract_info cur) t)), ticker = t\<rparr>)
            (set_order rt (set_difference (map fst (extract_info cur))
                             (map fst (extract_info (get_holdings prev)))))"
    by (subst eq) simp
  show rh: "removed_holdings r =
          map (\<lambda>t. \<lparr>name = name (the (map_of (extract_info (get_holdings prev)) t)),
                     ticker = t\<rparr>)
            (set_order rt (set_difference (map fst (extract_info (get_holdings prev)))
                             (map fst (extract_info cur))))"
    by (subst eq) simp
  show "total_holdings r = length cur" by (subst eq) simp
  show "date r = today" by (subst eq) simp
  show "previous_date r = get_date prev" by (subst eq) simp
  have "significant_changes r =
      length (set_difference (map fst (extract_info cur))
                (map fst (extract_info (get_holdings prev)))) +
      length (set_difference (map fst (extract_info (get_holdings prev)))
                (map fst (extract_info cur))) +
      length (entries rt (extract_info cur) (extract_info (get_holdings prev))
           (set_order rt (set_intersection (map fst (extract_info cur))
                            (map fst (extract_info (get_holdings prev))))))"
    by (subst eq) simp
  then show "significant_changes r =
          length (new_holdings r) + length (removed_holdings r) + length (weight_changes r)"
    unfolding wc nh rh
    by (simp add: length_set_order[OF assms(1)] sorted_reverse_def)
qed

lemma in_weight_changes:
  assumes "iterates_sets rt"
    and "compare_holdings rt today cur (Some prev) = Inr (Success r)"
  shows "w \<in> set (weight_changes r) \<longleftrightarrow>
     (\<exists>t \<in> fst ` set (extract_info cur) \<inter> fst ` set (extract_info (get_holdings prev)).
        weight_entry rt t (the (map_of (extract_info cur) t))
          (the (map_of (extract_info (get_holdings prev)) t)) = Some w)"
  unfolding compare_success_fields(1)[OF assms] set_sorted_reverse set_map_filter
    in_both[OF assms(1)]
  by simp

lemma sorted_reverse_descending:
  "sorted_wrt (\<lambda>a b. k a \<ge> k b) (sorted_reverse k xs)"
proof -
  have "sorted (map k (sort_key k (rev xs)))" by (rule sorted_sort_key)
  then have "sorted_wrt (\<lambda>a b. k a \<le> k b) (sort_key k (rev xs))"
    by (simp add: sorted_wrt_map)
  then show ?thesis
    by (simp add: sorted_reverse_def sorted_wrt_rev)
qed

lemma sorted_reverse_stable:
  "filter (\<lambda>y. k y = a) (sorted_reverse k xs) = filter (\<lambda>y. k y = a) xs"
proof -
  have "filter (\<lambda>y. k y = a) (sorted_reverse k xs)
      = rev (filter (\<lambda>y. k y = a) (sort_key k (rev xs)))"
    by (simp add: sorted_reverse_def rev_filter)
  also have "\<dots> = rev (filter (\<lambda>y. k y = a) (rev xs))"
    by (simp only: sort_key_stable)
  also have "\<dots> = filter (\<lambda>y. k y = a) xs"
    by (simp add: rev_filter)
  finally show ?thesis .
qed

lemma mset_sorted_reverse: "mset (sorted_reverse k xs) = mset xs"
  by (simp add: sorted_reverse_def)

lemma weight_entry_same: "weight_entry rt t c c = None"
  by (simp add: weight_entry_def Let_def split: option.split)

lemma map_filter_all_None: "\<forall>x \<in> set xs. f x = None \<Longrightarrow> List.map_filter f xs = []"
  by (induction xs) simp_all

lemma set_order_Nil: "iterates_sets rt \<Longrightarrow> set_order rt [] = []"
  using length_set_order[of rt "[]"] by simp

lemma set_difference_self: "set_difference xs xs = []"
  by (simp add: set_difference_def)

lemma set_set_difference: "set (set_difference xs ys) = set xs - set ys"
  by (auto simp: set_difference_def)

lemma distinct_set_difference: "distinct xs \<Longrightarrow> distinct (set_difference xs ys)"
  by (simp add: set_difference_def)

lemma extract_row_short: "\<not> 3 \<le> length h \<Longrightarrow> extract_row d h = d"
  by (simp add: extract_row_def)

lemma foldl_extract_filter:
  "foldl extract_row d (filter (\<lambda>h. 3 \<le> length h) hs) = foldl extract_row d hs"
  by (induction hs arbitrary: d) (simp_all add: extract_row_short)

lemma extract_info_filter:
  "extract_info (filter (\<lambda>h. 3 \<le> length h) hs) = extract_info hs"
  by (simp add: extract_info_def foldl_extract_filter)

lemma weight_changes_for_ticker:
  assumes "iterates_sets rt"
    and "compare_holdings rt today cur (Some prev) = Inr (Success r)"
    and "map_of (extract_info cur) t = Some c"
    and "map_of (extract_info (get_holdings prev)) t = Some p"
  shows "w \<in> set (weight_changes r) \<and> ticker w = t \<longleftrightarrow> weight_entry rt t c p = Some w"
proof
  let ?ci = "extract_info cur" and ?pi = "extract_info (get_holdings prev)"
  assume a: "w \<in> set (weight_changes r) \<and> ticker w = t"
  then obtain t' where t': "weight_entry rt t' (the (map_of ?ci t')) (the (map_of ?pi t')) = Some w"
    unfolding in_weight_changes[OF assms(1,2)] by blast
  from weight_entry_Some[OF t'] a have "t' = t" by simp
  with t' assms(3,4) show "weight_entry rt t c p = Some w" by simp
next
  let ?ci = "extract_info cur" and ?pi = "extract_info (get_holdings prev)"
  assume a: "weight_entry rt t c p = Some w"
  have t: "t \<in> fst ` set ?ci \<inter> fst ` set ?pi"
    using assms(3,4) by (auto dest!: map_of_SomeD intro: rev_image_eqI)
  with a assms(3,4) have "w \<in> set (weight_changes r)"
    unfolding in_weight_changes[OF assms(1,2)] by force
  moreover from weight_entry_Some[OF a] have "ticker w = t" by simp
  ultimately show "w \<in> set (weight_changes r) \<and> ticker w = t" ..
qed

lemma new_removed_ticker_sets:
  assumes "iterates_sets rt"
    and "compare_holdings rt today cur (Some prev) = Inr (Success r)"
  shows "ticker ` set (new_holdings r)
           = fst ` set (extract_info cur) - fst ` set (extract_info (get_holdings prev))"
    and "ticker ` set (removed_holdings r)
           = fst ` set (extract_info (get_holdings prev)) - fst ` set (extract_info cur)"
proof -
  note f = compare_success_fields[OF assms]
  have "map ticker (new_holdings r)
          = set_order rt (set_difference (map fst (extract_info cur))
                            (map fst (extract_info (get_holdings prev))))"
    unfolding f(2) by (simp add: comp_def)
  then have "set (map ticker (new_holdings r))
          = fst ` set (extract_info cur) - fst ` set (extract_info (get_holdings prev))"
    by (simp only: set_set_order[OF assms(1)] set_set_difference set_map)
  then show "ticker ` set (new_holdings r)
           = fst ` set (extract_info cur) - fst ` set (extract_info (get_holdings prev))"
    by simp
  have "map ticker (removed_holdings r)
          = set_order rt (set_difference (map fst (extract_info (get_holdings prev)))
                            (map fst (extract_info cur)))"
    unfolding f(3) by (simp add: comp_def)
  then have "set (map ticker (removed_holdings r))
          = fst ` set (extract_info (get_holdings prev)) - fst ` set (extract_info cur)"
    by (simp only: set_set_order[OF assms(1)] set_set_difference set_map)
  then show "ticker ` set (removed_holdings r)
           = fst ` set (extract_info (get_holdings prev)) - fst ` set (extract_info cur)"
    by simp
qed

lemma to_weight_weight_str:
  "to_weight rt (weight_str rt w) =
     (let s = strip (filter (\<lambda>x. x \<noteq> CHR ''%'') (py_str rt w))
      in if s = [] then Some 0 else float_of rt s)"
  by (simp add: to_weight_def weight_str_def replace_percent_def Let_def)

lemma strictly_descending:
  fixes k :: "'a \<Rightarrow> 'k::linorder"
  shows "sorted_wrt (\<lambda>a b. k a \<ge> k b) xs \<Longrightarrow> distinct (map k xs) \<Longrightarrow>
   sorted_wrt (\<lambda>a b. k a > k b) xs"
proof (induction xs)
  case Nil
  then show ?case by simp
next
  case (Cons a xs)
  have "k x < k a" if "x \<in> set xs" for x
  proof -
    from Cons.prems(1) that have "k x \<le> k a" by simp
    moreover have "k x \<noteq> k a"
    proof
      assume "k x = k a"
      with that have "k a \<in> k ` set xs" by (metis imageI)
      with Cons.prems(2) show False by simp
    qed
    ultimately show ?thesis by simp
  qed
  with Cons show ?case by simp
qed

lemma sorted_reverse_strict:
  assumes "distinct (map k xs)"
  shows "sorted_wrt (\<lambda>a b. k a > k b) (sorted_reverse k xs)"
proof -
  have "mset (map k (sorted_reverse k xs)) = mset (map k xs)"
    by (simp add: mset_sorted_reverse)
  with assms have "distinct (map k (sorted_reverse k xs))"
    by (metis mset_eq_imp_distinct_iff)
  with sorted_reverse_descending[of k xs] show ?thesis
    by (rule strictly_descending)
qed

lemma distinct_glob_holdings: "distinct (map fst dir) \<Longrightarrow> distinct (map fst (glob_holdings dir))"
  by (simp add: glob_holdings_def distinct_map_filter)

lemma new_items_no_weight:
  "[(u, t). WeightTicker u t \<leftarrow> new_items hs] = []"
  "[(p, q, d). WeightLine p q d \<leftarrow> new_items hs] = []"
  "[n. MoreChanges n \<leftarrow> new_items hs] = []"
  by (induction hs) (simp_all add: new_items_def)

lemma removed_items_no_weight:
  "[(u, t). WeightTicker u t \<leftarrow> removed_items hs] = []"
  "[(p, q, d). WeightLine p q d \<leftarrow> removed_items hs] = []"
  "[n. MoreChanges n \<leftarrow> removed_items hs] = []"
  by (induction hs) (simp_all add: removed_items_def)

lemma weight_items_entries:
  "[(u, t). WeightTicker u t \<leftarrow> weight_items ws] = map (\<lambda>w. (0 < change w, ticker w)) ws"
  "[(p, q, d). WeightLine p q d \<leftarrow> weight_items ws]
     = map (\<lambda>w. (previous_weight w, current_weight w, change w)) ws"
  "[n. MoreChanges n \<leftarrow> weight_items ws] = []"
  by (induction ws) (simp_all add: weight_items_def)

lemma report_weight_tickers:
  "[(u, t). WeightTicker u t \<leftarrow> generate_report now (Success c)]
     = map (\<lambda>w. (0 < change w, ticker w)) (take 10 (weight_changes c))"
  by (simp add: new_items_no_weight removed_items_no_weight weight_items_entries)

lemma report_weight_lines:
  "[(p, q, d). WeightLine p q d \<leftarrow> generate_report now (Success c)]
     = map (\<lambda>w. (previous_weight w, current_weight w, change w)) (take 10 (weight_changes c))"
  by (simp add: new_items_no_weight removed_items_no_weight weight_items_entries)

lemma report_more_changes:
  "[n. MoreChanges n \<leftarrow> generate_report now (Success c)]
     = (if 10 < length (weight_changes c) then [length (weight_changes c) - 10] else [])"
  by (simp add: new_items_no_weight removed_items_no_weight weight_items_entries
           del: concat_eq_Nil_conv Nil_eq_concat_conv)

lemma report_weight_block:
  assumes "weight_changes c \<noteq> []"
  shows "suffix ([NlDashes, WeightHeader, Dashes] @ weight_items (take 10 (weight_changes c)) @
           (if 10 < length (weight_changes c)
            then [MoreChanges (length (weight_changes c) - 10)] else []) @
           (if significant_changes c = 0 then [NlDashes, NoChanges, Dashes] else []) @
           [NlRule, Generated now, Rule])
          (generate_report now (Success c))"
proof -
  let ?pre = "[Rule, Title, Rule, ReportDate (date c)] @
     [ComparingWith (previous_date c), TotalHoldings (total_holdings c),
      TotalChanges (significant_changes c)] @
     (if new_holdings c \<noteq> [] then
        [NlDashes, NewHeader (length (new_holdings c)), Dashes] @
        new_items (new_holdings c)
      else []) @
     (if removed_holdings c \<noteq> [] then
        [NlDashes, RemovedHeader (length (removed_holdings c)), Dashes] @
        removed_items (removed_holdings c)
      else [])"
  have "generate_report now (Success c) = ?pre @
          ([NlDashes, WeightHeader, Dashes] @ weight_items (take 10 (weight_changes c)) @
           (if 10 < length (weight_changes c)
            then [MoreChanges (length (weight_changes c) - 10)] else []) @
           (if significant_changes c = 0 then [NlDashes, NoChanges, Dashes] else []) @
           [NlRule, Generated now, Rule])"
    using assms by simp
  then show ?thesis unfolding suffix_def by (rule exI)
qed

lemma report_no_changes:
  assumes "iterates_sets rt"
    and "compare_holdings rt today cur (Some prev) = Inr (Success c)"
    and "significant_changes c = 0"
  shows "generate_report now (Success c) =
     [Rule, Title, Rule, ReportDate (date c), ComparingWith (previous_date c),
      TotalHoldings (total_holdings c), TotalChanges 0,
      NlDashes, NoChanges, Dashes, NlRule, Generated now, Rule]"
proof -
  from compare_success_fields(7)[OF assms(1,2)] assms(3)
  have "new_holdings c = []" "removed_holdings c = []" "weight_changes c = []"
    by simp_all
  with assms(3) show ?thesis by simp
qed

section \<open>The claims\<close>




text \<open>
  Claim C2. Comparing holdings with a previous snapshot that has the same holdings
  succeeds with no new holdings, no removed holdings, no weight changes and a count of
  significant changes of zero.
\<close>

theorem compare_with_itself:
  assumes "iterates_sets rt" and "snap_holdings prev = Some hs"
  shows "\<exists>r. compare_holdings rt today hs (Some prev) = Inr (Success r)
           \<and> new_holdings r = [] \<and> removed_holdings r = []
           \<and> weight_changes r = [] \<and> significant_changes r = 0"
proof -
  from assms(2) have g: "get_holdings prev = hs"
    by (simp add: get_holdings_def)
  obtain r where r: "compare_holdings rt today hs (Some prev) = Inr (Success r)"
    using compare_holdings_Some[OF assms(1)] by blast
  note f = compare_success_fields[OF assms(1) r, unfolded g]
  have n: "new_holdings r = []" and d: "removed_holdings r = []"
    using f(2,3) by (simp_all add: set_difference_self set_order_Nil[OF assms(1)])
  have "entries rt (extract_info hs) (extract_info hs)
          (set_order rt (set_intersection (map fst (extract_info hs))
                           (map fst (extract_info hs)))) = []"
    by (rule map_filter_all_None) (simp add: weight_entry_same)
  then have w: "weight_changes r = []"
    using f(1) by (simp add: sorted_reverse_def)
  from f(7) n d w have "significant_changes r = 0" by simp
  with r n d w show ?thesis by blast
qed

theorem compare_with_itself_witness:
  "iterates_sets example_runtime
   \<and> snap_holdings \<lparr>snap_date = Some ''2024-01-01'',
        snap_holdings = Some [[FStr ''AAPL'', FStr ''Apple'', FStr ''5.02''],
                              [FStr ''GOOG'', FStr ''Alphabet'', FStr ''3.00'']]\<rparr>
       = Some [[FStr ''AAPL'', FStr ''Apple'', FStr ''5.02''],
               [FStr ''GOOG'', FStr ''Alphabet'', FStr ''3.00'']]
   \<and> (\<exists>r. compare_holdings example_runtime ''2024-01-02''
              [[FStr ''AAPL'', FStr ''Apple'', FStr ''5.02''],
               [FStr ''GOOG'', FStr ''Alphabet'', FStr ''3.00'']]
              (Some \<lparr>snap_date = Some ''2024-01-01'',
                 snap_holdings = Some [[FStr ''AAPL'', FStr ''Apple'', FStr ''5.02''],
                                       [FStr ''GOOG'', FStr ''Alphabet'', FStr ''3.00'']]\<rparr>)
            = Inr (Success r)
          \<and> new_holdings r = [] \<and> removed_holdings r = []
          \<and> weight_changes r = [] \<and> significant_changes r = 0)"
proof -
  let ?hs = "[[FStr ''AAPL'', FStr ''Apple'', FStr ''5.02''],
              [FStr ''GOOG'', FStr ''Alphabet'', FStr ''3.00'']]"
  let ?prev = "\<lparr>snap_date = Some ''2024-01-01'', snap_holdings = Some ?hs\<rparr>"
  have h1: "iterates_sets example_runtime" by (rule iterates_sets_example)
  have h2: "snap_holdings ?prev = Some ?hs" by simp
  from compare_with_itself[OF h1 h2, of "''2024-01-02''"] h1 h2
  show ?thesis by blast
qed


text \<open>
  Claim C3. In a successful comparison \<open>weight_changes\<close> is in descending order of
  \<open>\<bar>change\<bar>\<close>. It holds the entries that the loop appended, and entries of equal
  \<open>\<bar>change\<bar>\<close> stand in the order in which the loop appended them.
\<close>

theorem weight_changes_sorted_stable:
  assumes "iterates_sets rt"
    and "compare_holdings rt today cur (Some prev) = Inr (Success r)"
  shows "sorted_wrt (\<lambda>a b. \<bar>change a\<bar> \<ge> \<bar>change b\<bar>) (weight_changes r)
       \<and> (\<exists>es. weight_loop rt (extract_info cur) (extract_info (get_holdings prev))
                  (set_order rt (set_intersection (map fst (extract_info cur))
                     (map fst (extract_info (get_holdings prev))))) [] = Inr es
              \<and> mset (weight_changes r) = mset es
              \<and> (\<forall>k. filter (\<lambda>w. \<bar>change w\<bar> = k) (weight_changes r)
                     = filter (\<lambda>w. \<bar>change w\<bar> = k) es))"
proof -
  let ?ci = "extract_info cur" and ?pi = "extract_info (get_holdings prev)"
  let ?both = "set_order rt (set_intersection (map fst ?ci) (map fst ?pi))"
  let ?es = "entries rt ?ci ?pi ?both"
  have wc: "weight_changes r = sorted_reverse (\<lambda>x. \<bar>change x\<bar>) ?es"
    by (rule compare_success_fields(1)[OF assms])
  have sub: "set ?both \<subseteq> fst ` set ?ci" "set ?both \<subseteq> fst ` set ?pi"
    unfolding in_both[OF assms(1)] by simp_all
  have loop: "weight_loop rt ?ci ?pi ?both [] = Inr ?es"
    using weight_loop_total[OF sub, of rt "[]"] by simp
  have "sorted_wrt (\<lambda>a b. \<bar>change a\<bar> \<ge> \<bar>change b\<bar>) (weight_changes r)"
    unfolding wc by (rule sorted_reverse_descending)
  moreover have "mset (weight_changes r) = mset ?es"
    unfolding wc by (rule mset_sorted_reverse)
  moreover have "\<forall>k. filter (\<lambda>w. \<bar>change w\<bar> = k) (weight_changes r)
                     = filter (\<lambda>w. \<bar>change w\<bar> = k) ?es"
    unfolding wc by (simp add: sorted_reverse_stable)
  ultimately show ?thesis using loop by blast
qed

theorem weight_changes_sorted_stable_witness:
  "iterates_sets example_runtime
   \<and> compare_holdings example_runtime ''2024-01-02''
       [[FStr ''AAA'', FStr ''Alpha'', FStr ''5.50''],
        [FStr ''BBB'', FStr ''Beta'', FStr ''4.50''],
        [FStr ''CCC'', FStr ''Gamma'', FStr ''3.00'']]
       (Some \<lparr>snap_date = Some ''2024-01-01'',
              snap_holdings = Some [[FStr ''AAA'', FStr ''Alpha'', FStr ''5.00''],
                                    [FStr ''BBB'', FStr ''Beta'', FStr ''5.00''],
                                    [FStr ''CCC'', FStr ''Gamma'', FStr ''2.00'']]\<rparr>)
     = Inr (Success \<lparr>date = ''2024-01-02'', previous_date = ''2024-01-01'',
          total_holdings = 3, new_holdings = [], removed_holdings = [],
          weight_changes =
            [\<lparr>name = FStr ''Gamma'', ticker = FStr ''CCC'',
               previous_weight = 2, current_weight = 3, change = 1\<rparr>,
             \<lparr>name = FStr ''Alpha'', ticker = FStr ''AAA'',
               previous_weight = 5, current_weight = 11 / 2, change = 1 / 2\<rparr>,
             \<lparr>name = FStr ''Beta'', ticker = FStr ''BBB'',
               previous_weight = 5, current_weight = 9 / 2, change = - (1 / 2)\<rparr>],
          significant_changes = 3\<rparr>)
   \<and> sorted_wrt (\<lambda>a b. \<bar>change a\<bar> \<ge> \<bar>change b\<bar>)
         [\<lparr>name = FStr ''Gamma'', ticker = FStr ''CCC'',
               previous_weight = 2, current_weight = 3, change = 1 :: rat\<rparr>,
             \<lparr>name = FStr ''Alpha'', ticker = FStr ''AAA'',
               previous_weight = 5, current_weight = 11 / 2, change = 1 / 2\<rparr>,
             \<lparr>name = FStr ''Beta'', ticker = FStr ''BBB'',
               previous_weight = 5, current_weight = 9 / 2, change = - (1 / 2)\<rparr>]"
proof -
  let ?cur = "[[FStr ''AAA'', FStr ''Alpha'', FStr ''5.50''],
        [FStr ''BBB'', FStr ''Beta'', FStr ''4.50''],
        [FStr ''CCC'', FStr ''Gamma'', FStr ''3.00'']]"
  let ?prev = "\<lparr>snap_date = Some ''2024-01-01'',
              snap_holdings = Some [[FStr ''AAA'', FStr ''Alpha'', FStr ''5.00''],
                                    [FStr ''BBB'', FStr ''Beta'', FStr ''5.00''],
                                    [FStr ''CCC'', FStr ''Gamma'', FStr ''2.00'']]\<rparr>"
  let ?ws = "[\<lparr>name = FStr ''Gamma'', ticker = FStr ''CCC'',
               previous_weight = 2, current_weight = 3, change = 1 :: rat\<rparr>,
             \<lparr>name = FStr ''Alpha'', ticker = FStr ''AAA'',
               previous_weight = 5, current_weight = 11 / 2, change = 1 / 2\<rparr>,
             \<lparr>name = FStr ''Beta'', ticker = FStr ''BBB'',
               previous_weight = 5, current_weight = 9 / 2, change = - (1 / 2)\<rparr>]"
  let ?r = "\<lparr>date = ''2024-01-02'', previous_date = ''2024-01-01'',
          total_holdings = 3, new_holdings = [], removed_holdings = [],
          weight_changes = ?ws, significant_changes = 3\<rparr>"
  have h1: "iterates_sets example_runtime" by (rule iterates_sets_example)
  have h2: "compare_holdings example_runtime ''2024-01-02'' ?cur (Some ?prev)
              = Inr (Success ?r)"
    by code_simp
  from weight_changes_sorted_stable[OF h1 h2]
  have "sorted_wrt (\<lambda>a b. \<bar>change a\<bar> \<ge> \<bar>change b\<bar>) (weight_changes ?r)"
    by (rule conjunct1)
  then have "sorted_wrt (\<lambda>a b. \<bar>change a\<bar> \<ge> \<bar>change b\<bar>) ?ws"
    by (simp only: success.simps)
  with h1 h2 show ?thesis by blast
qed


text \<open>
  Claim C4, as amended. A row of fewer than three fields adds nothing to the mapping of
  its snapshot. Dropping such rows from both snapshots leaves every field of a successful
  comparison as it was, \<open>total_holdings\<close> apart: that field is the number of all current
  rows, so a short row of the current snapshot is counted there.
\<close>

theorem short_rows_skipped:
  assumes "iterates_sets rt"
    and "compare_holdings rt today cur (Some prev) = Inr (Success r)"
  shows "extract_info (filter (\<lambda>h. 3 \<le> length h) cur) = extract_info cur
       \<and> extract_info (filter (\<lambda>h. 3 \<le> length h) (get_holdings prev))
           = extract_info (get_holdings prev)
       \<and> total_holdings r = length cur
       \<and> compare_holdings rt today (filter (\<lambda>h. 3 \<le> length h) cur)
           (Some (prev\<lparr>snap_holdings :=
                          Some (filter (\<lambda>h. 3 \<le> length h) (get_holdings prev))\<rparr>))
           = Inr (Success (r\<lparr>total_holdings := length (filter (\<lambda>h. 3 \<le> length h) cur)\<rparr>))"
proof -
  let ?long = "\<lambda>h::row. 3 \<le> length h"
  let ?prev' = "prev\<lparr>snap_holdings := Some (filter ?long (get_holdings prev))\<rparr>"
  obtain r' where r': "compare_holdings rt today (filter ?long cur) (Some ?prev')
                         = Inr (Success r')"
    using compare_holdings_Some[OF assms(1)] by blast
  have g: "get_holdings ?prev' = filter ?long (get_holdings prev)"
    by (simp add: get_holdings_def)
  have d: "get_date ?prev' = get_date prev"
    by (simp add: get_date_def)
  note f = compare_success_fields[OF assms]
  note f' = compare_success_fields[OF assms(1) r', unfolded g d extract_info_filter]
  have "r' = r\<lparr>total_holdings := length (filter ?long cur)\<rparr>"
  proof (rule success.equality)
    show "date r' = date (r\<lparr>total_holdings := length (filter ?long cur)\<rparr>)"
      using f(5) f'(5) by simp
    show "previous_date r' = previous_date (r\<lparr>total_holdings := length (filter ?long cur)\<rparr>)"
      using f(6) f'(6) by simp
    show "total_holdings r' = total_holdings (r\<lparr>total_holdings := length (filter ?long cur)\<rparr>)"
      using f'(4) by simp
    show "new_holdings r' = new_holdings (r\<lparr>total_holdings := length (filter ?long cur)\<rparr>)"
      using f(2) f'(2) by simp
    show "removed_holdings r' = removed_holdings (r\<lparr>total_holdings := length (filter ?long cur)\<rparr>)"
      using f(3) f'(3) by simp
    show wc: "weight_changes r' = weight_changes (r\<lparr>total_holdings := length (filter ?long cur)\<rparr>)"
      using f(1) f'(1) by simp
    show "significant_changes r'
            = significant_changes (r\<lparr>total_holdings := length (filter ?long cur)\<rparr>)"
      using f(1,2,3,7) f'(1,2,3,7) by simp
    show "success.more r' = success.more (r\<lparr>total_holdings := length (filter ?long cur)\<rparr>)"
      by simp
  qed
  with r' f(4) show ?thesis
    by (simp add: extract_info_filter)
qed

theorem short_rows_skipped_witness:
  "iterates_sets example_runtime
   \<and> compare_holdings example_runtime ''2024-01-02''
       [[FStr ''AAA'', FStr ''Alpha'', FStr ''5.50''], [FStr ''XYZ'', FStr ''Two fields'']]
       (Some \<lparr>snap_date = Some ''2024-01-01'',
              snap_holdings = Some [[FStr ''AAA'', FStr ''Alpha'', FStr ''5.00''],
                                    [FStr ''AAA'']]\<rparr>)
     = Inr (Success \<lparr>date = ''2024-01-02'', previous_date = ''2024-01-01'',
          total_holdings = 2, new_holdings = [], removed_holdings = [],
          weight_changes = [\<lparr>name = FStr ''Alpha'', ticker = FStr ''AAA'',
              previous_weight = 5, current_weight = 11 / 2, change = 1 / 2\<rparr>],
          significant_changes = 1\<rparr>)
   \<and> compare_holdings example_runtime ''2024-01-02''
       [[FStr ''AAA'', FStr ''Alpha'', FStr ''5.50'']]
       (Some \<lparr>snap_date = Some ''2024-01-01'',
              snap_holdings = Some [[FStr ''AAA'', FStr ''Alpha'', FStr ''5.00'']]\<rparr>)
     = Inr (Success \<lparr>date = ''2024-01-02'', previous_date = ''2024-01-01'',
          total_holdings = 1, new_holdings = [], removed_holdings = [],
          weight_changes = [\<lparr>name = FStr ''Alpha'', ticker = FStr ''AAA'',
              previous_weight = 5, current_weight = 11 / 2, change = 1 / 2\<rparr>],
          significant_changes = 1\<rparr>)"
proof -
  let ?cur = "[[FStr ''AAA'', FStr ''Alpha'', FStr ''5.50''], [FStr ''XYZ'', FStr ''Two fields'']]"
  let ?hs = "[[FStr ''AAA'', FStr ''Alpha'', FStr ''5.00''], [FStr ''AAA'']]"
  let ?prev = "\<lparr>snap_date = Some ''2024-01-01'', snap_holdings = Some ?hs\<rparr>"
  let ?w = "\<lparr>name = FStr ''Alpha'', ticker = FStr ''AAA'',
              previous_weight = 5, current_weight = 11 / 2, change = 1 / 2 :: rat\<rparr>"
  let ?r = "\<lparr>date = ''2024-01-02'', previous_date = ''2024-01-01'',
          total_holdings = 2, new_holdings = [], removed_holdings = [],
          weight_changes = [?w], significant_changes = 1\<rparr>"
  have h1: "iterates_sets example_runtime" by (rule iterates_sets_example)
  have h2: "compare_holdings example_runtime ''2024-01-02'' ?cur (Some ?prev)
              = Inr (Success ?r)"
    by code_simp
  have g: "get_holdings ?prev = ?hs" by (simp add: get_holdings_def)
  have c: "filter (\<lambda>h. 3 \<le> length h) ?cur = [[FStr ''AAA'', FStr ''Alpha'', FStr ''5.50'']]"
    and p: "filter (\<lambda>h. 3 \<le> length h) ?hs = [[FStr ''AAA'', FStr ''Alpha'', FStr ''5.00'']]"
    by simp_all
  from short_rows_skipped[OF h1 h2, unfolded g c p]
  have "compare_holdings example_runtime ''2024-01-02''
          [[FStr ''AAA'', FStr ''Alpha'', FStr ''5.50'']]
          (Some (?prev\<lparr>snap_holdings := Some [[FStr ''AAA'', FStr ''Alpha'', FStr ''5.00'']]\<rparr>))
        = Inr (Success (?r\<lparr>total_holdings := length [[FStr ''AAA'', FStr ''Alpha'', FStr ''5.50'']]\<rparr>))"
    by blast
  then have "compare_holdings example_runtime ''2024-01-02''
       [[FStr ''AAA'', FStr ''Alpha'', FStr ''5.50'']]
       (Some \<lparr>snap_date = Some ''2024-01-01'',
              snap_holdings = Some [[FStr ''AAA'', FStr ''Alpha'', FStr ''5.00'']]\<rparr>)
     = Inr (Success \<lparr>date = ''2024-01-02'', previous_date = ''2024-01-01'',
          total_holdings = 1, new_holdings = [], removed_holdings = [],
          weight_changes = [?w], significant_changes = 1\<rparr>)"
    by simp
  with h1 h2 show ?thesis by blast
qed

theorem short_row_counted_counterexample:
  "compare_holdings example_runtime ''2024-01-02''
       [[FStr ''AAA'', FStr ''Alpha'', FStr ''5.00''], [FStr ''XYZ'', FStr ''Two fields'']]
       (Some \<lparr>snap_date = Some ''2024-01-01'',
              snap_holdings = Some [[FStr ''AAA'', FStr ''Alpha'', FStr ''5.00'']]\<rparr>)
     = Inr (Success \<lparr>date = ''2024-01-02'', previous_date = ''2024-01-01'',
          total_holdings = 2, new_holdings = [], removed_holdings = [],
          weight_changes = [], significant_changes = 0\<rparr>)
   \<and> compare_holdings example_runtime ''2024-01-02''
       [[FStr ''AAA'', FStr ''Alpha'', FStr ''5.00'']]
       (Some \<lparr>snap_date = Some ''2024-01-01'',
              snap_holdings = Some [[FStr ''AAA'', FStr ''Alpha'', FStr ''5.00'']]\<rparr>)
     = Inr (Success \<lparr>date = ''2024-01-02'', previous_date = ''2024-01-01'',
          total_holdings = 1, new_holdings = [], removed_holdings = [],
          weight_changes = [], significant_changes = 0\<rparr>)"
  by code_simp


text \<open>
  Claim C5, as amended. For a ticker in both mappings the comparison succeeds whatever the
  weight fields hold. A weight is read by deleting every \<^verbatim>\<open>%\<close> of its string, stripping the
  whitespace around the rest and passing it to \<^verbatim>\<open>float\<close>, with the empty string read as 0.
  An entry of \<open>weight_changes\<close> for the ticker holds the two weights so read; when either
  reading fails there is no such entry, and the ticker is in neither \<open>new_holdings\<close> nor
  \<open>removed_holdings\<close>.
\<close>

theorem weight_parsing:
  assumes "iterates_sets rt"
    and "map_of (extract_info cur) t = Some c"
    and "map_of (extract_info (get_holdings prev)) t = Some p"
  shows "let parse = (\<lambda>w. let s = strip (filter (\<lambda>x. x \<noteq> CHR ''%'') (py_str rt w))
                           in if s = [] then Some 0 else float_of rt s)
         in \<exists>r. compare_holdings rt today cur (Some prev) = Inr (Success r)
              \<and> (\<forall>w \<in> set (weight_changes r). ticker w = t \<longrightarrow>
                    parse (weight c) = Some (current_weight w)
                    \<and> parse (weight p) = Some (previous_weight w))
              \<and> (parse (weight c) = None \<or> parse (weight p) = None \<longrightarrow>
                    \<not> (\<exists>w \<in> set (weight_changes r). ticker w = t))
              \<and> t \<notin> ticker ` set (new_holdings r)
              \<and> t \<notin> ticker ` set (removed_holdings r)"
proof -
  obtain r where r: "compare_holdings rt today cur (Some prev) = Inr (Success r)"
    using compare_holdings_Some[OF assms(1)] by blast
  note wt = weight_changes_for_ticker[OF assms(1) r assms(2,3)]
  have both: "t \<in> fst ` set (extract_info cur)"
      "t \<in> fst ` set (extract_info (get_holdings prev))"
    using assms(2,3) by (auto dest!: map_of_SomeD intro: rev_image_eqI)
  have a: "\<forall>w \<in> set (weight_changes r). ticker w = t \<longrightarrow>
             to_weight rt (weight_str rt (weight c)) = Some (current_weight w)
             \<and> to_weight rt (weight_str rt (weight p)) = Some (previous_weight w)"
  proof (intro ballI impI)
    fix w assume "w \<in> set (weight_changes r)" and "ticker w = t"
    then have "weight_entry rt t c p = Some w" using wt by blast
    from weight_entry_Some[OF this]
    show "to_weight rt (weight_str rt (weight c)) = Some (current_weight w)
             \<and> to_weight rt (weight_str rt (weight p)) = Some (previous_weight w)"
      by auto
  qed
  have b: "to_weight rt (weight_str rt (weight c)) = None
             \<or> to_weight rt (weight_str rt (weight p)) = None \<longrightarrow>
           \<not> (\<exists>w \<in> set (weight_changes r). ticker w = t)"
    using a by fastforce
  have n: "t \<notin> ticker ` set (new_holdings r)"
    unfolding new_removed_ticker_sets(1)[OF assms(1) r] using both by blast
  have d: "t \<notin> ticker ` set (removed_holdings r)"
    unfolding new_removed_ticker_sets(2)[OF assms(1) r] using both by blast
  show ?thesis
    unfolding Let_def to_weight_weight_str[unfolded Let_def, symmetric]
    by (rule exI[of _ r]) (intro conjI r a b n d)
qed

theorem weight_parsing_witness:
  "iterates_sets example_runtime
   \<and> map_of (extract_info [[FStr ''AAA'', FStr ''Alpha'', FStr ''n/a'']]) (FStr ''AAA'')
       = Some \<lparr>name = FStr ''Alpha'', weight = FStr ''n/a''\<rparr>
   \<and> map_of (extract_info [[FStr ''AAA'', FStr ''Alpha'', FStr '' 5.00 % '']]) (FStr ''AAA'')
       = Some \<lparr>name = FStr ''Alpha'', weight = FStr '' 5.00 % ''\<rparr>
   \<and> to_weight example_runtime (weight_str example_runtime (FStr ''n/a'')) = None
   \<and> to_weight example_runtime (weight_str example_runtime (FStr '' 5.00 % '')) = Some 5
   \<and> (\<exists>r. compare_holdings example_runtime ''2024-01-02''
              [[FStr ''AAA'', FStr ''Alpha'', FStr ''n/a'']]
              (Some \<lparr>snap_date = Some ''2024-01-01'',
                 snap_holdings = Some [[FStr ''AAA'', FStr ''Alpha'', FStr '' 5.00 % '']]\<rparr>)
            = Inr (Success r)
          \<and> \<not> (\<exists>w \<in> set (weight_changes r). ticker w = FStr ''AAA''))"
proof -
  let ?cur = "[[FStr ''AAA'', FStr ''Alpha'', FStr ''n/a'']]"
  let ?hs = "[[FStr ''AAA'', FStr ''Alpha'', FStr '' 5.00 % '']]"
  let ?prev = "\<lparr>snap_date = Some ''2024-01-01'', snap_holdings = Some ?hs\<rparr>"
  have h1: "iterates_sets example_runtime" by (rule iterates_sets_example)
  have h2: "map_of (extract_info ?cur) (FStr ''AAA'')
              = Some \<lparr>name = FStr ''Alpha'', weight = FStr ''n/a''\<rparr>"
    by code_simp
  have h3': "map_of (extract_info ?hs) (FStr ''AAA'')
              = Some \<lparr>name = FStr ''Alpha'', weight = FStr '' 5.00 % ''\<rparr>"
    by code_simp
  have g: "get_holdings ?prev = ?hs" by (simp add: get_holdings_def)
  have h3: "map_of (extract_info (get_holdings ?prev)) (FStr ''AAA'')
              = Some \<lparr>name = FStr ''Alpha'', weight = FStr '' 5.00 % ''\<rparr>"
    unfolding g by (rule h3')
  have n: "to_weight example_runtime (weight_str example_runtime (FStr ''n/a'')) = None"
    by code_simp
  have m: "to_weight example_runtime (weight_str example_runtime (FStr '' 5.00 % '')) = Some 5"
    by code_simp
  have n': "(let s = strip (filter (\<lambda>x. x \<noteq> CHR ''%'') (py_str example_runtime (FStr ''n/a'')))
            in if s = [] then Some 0 else float_of example_runtime s) = None"
    using n unfolding to_weight_weight_str .
  from weight_parsing[OF h1 h2 h3, of "''2024-01-02''", unfolded Let_def] n'[unfolded Let_def]
  have "\<exists>r. compare_holdings example_runtime ''2024-01-02'' ?cur (Some ?prev) = Inr (Success r)
          \<and> \<not> (\<exists>w \<in> set (weight_changes r). ticker w = FStr ''AAA'')"
    by (simp only: info.simps named.simps) blast
  with h1 h2 h3' n m show ?thesis by blast
qed

theorem percent_anywhere_counterexample:
  "weight_str example_runtime (FStr ''1%5'') = ''15''
   \<and> spec_weight_str example_runtime (FStr ''1%5'') = ''1%5''
   \<and> to_weight example_runtime ''1%5'' = None
   \<and> compare_holdings example_runtime ''2024-01-02''
       [[FStr ''AAA'', FStr ''Alpha'', FStr ''1%5'']]
       (Some \<lparr>snap_date = Some ''2024-01-01'',
              snap_holdings = Some [[FStr ''AAA'', FStr ''Alpha'', FStr ''10'']]\<rparr>)
     = Inr (Success \<lparr>date = ''2024-01-02'', previous_date = ''2024-01-01'',
          total_holdings = 1, new_holdings = [], removed_holdings = [],
          weight_changes = [\<lparr>name = FStr ''Alpha'', ticker = FStr ''AAA'',
              previous_weight = 10, current_weight = 15, change = 5\<rparr>],
          significant_changes = 1\<rparr>)"
  by code_simp


text \<open>
  Claim C6. In a directory whose file names are distinct, \<open>load_previous_holdings\<close> gives
  no previous data when fewer than two snapshot files exist. Otherwise it gives what
  reading a snapshot file \<open>f\<close> gives, where exactly one snapshot file has a name above
  that of \<open>f\<close> and every other one a name below it: the second entry in descending order
  of file names. A file that cannot be read or parsed reads as no previous data. With no
  previous data the comparison is a first run whose \<open>total_holdings\<close> is the number of
  current rows.
\<close>

theorem load_previous_second_most_recent:
  assumes "distinct (map fst dir)"
  shows "(if length (glob_holdings dir) < 2 then load_previous_holdings dir = None
          else \<exists>f newest. f \<in> set (glob_holdings dir) \<and> newest \<in> set (glob_holdings dir)
                 \<and> load_previous_holdings dir = snd f
                 \<and> fst f < fst newest
                 \<and> (\<forall>g \<in> set (glob_holdings dir). g = newest \<or> g = f \<or> fst g < fst f))
       \<and> (load_previous_holdings dir = None \<longrightarrow>
            compare_holdings rt today cur (load_previous_holdings dir)
              = Inr (FirstRun (length cur)))"
proof -
  let ?files = "sorted_reverse fst (glob_holdings dir)"
  have len: "length ?files = length (glob_holdings dir)"
    by (simp add: sorted_reverse_def)
  have st: "set ?files = set (glob_holdings dir)"
    by (rule set_sorted_reverse)
  have first: "load_previous_holdings dir = None \<longrightarrow>
            compare_holdings rt today cur (load_previous_holdings dir)
              = Inr (FirstRun (length cur))"
    by (simp add: compare_holdings_def)
  show ?thesis
  proof (cases "length (glob_holdings dir) < 2")
    case True
    then have "load_previous_holdings dir = None"
      by (simp add: load_previous_holdings_def Let_def len)
    with True first show ?thesis by simp
  next
    case False
    then obtain a b rest where files: "?files = a # b # rest"
      using len by (cases ?files; cases "tl ?files") auto
    have "sorted_wrt (\<lambda>x y. fst x > fst y) ?files"
      using assms by (intro sorted_reverse_strict distinct_glob_holdings)
    then have ab: "fst b < fst a" and r: "\<forall>g \<in> set rest. fst g < fst b"
      unfolding files by auto
    have l: "load_previous_holdings dir = snd b"
      using False by (simp add: load_previous_holdings_def Let_def len files)
    have mem: "b \<in> set (glob_holdings dir)" "a \<in> set (glob_holdings dir)"
      using st unfolding files by auto
    have all: "\<forall>g \<in> set (glob_holdings dir). g = a \<or> g = b \<or> fst g < fst b"
      using st r unfolding files by auto
    from mem l ab all
    have "\<exists>f newest. f \<in> set (glob_holdings dir) \<and> newest \<in> set (glob_holdings dir)
                 \<and> load_previous_holdings dir = snd f
                 \<and> fst f < fst newest
                 \<and> (\<forall>g \<in> set (glob_holdings dir). g = newest \<or> g = f \<or> fst g < fst f)"
      by blast
    with False first show ?thesis by simp
  qed
qed

theorem load_previous_second_most_recent_witness:
  "distinct (map fst
      [(''holdings_2024-01-01.json'',
          Some \<lparr>snap_date = Some ''2024-01-01'', snap_holdings = Some []\<rparr>),
       (''report_2024-01-03.txt'', None),
       (''holdings_2024-01-03.json'',
          Some \<lparr>snap_date = Some ''2024-01-03'', snap_holdings = Some []\<rparr>),
       (''holdings_2024-01-02.json'',
          Some \<lparr>snap_date = Some ''2024-01-02'', snap_holdings = Some []\<rparr>)])
   \<and> load_previous_holdings
      [(''holdings_2024-01-01.json'',
          Some \<lparr>snap_date = Some ''2024-01-01'', snap_holdings = Some []\<rparr>),
       (''report_2024-01-03.txt'', None),
       (''holdings_2024-01-03.json'',
          Some \<lparr>snap_date = Some ''2024-01-03'', snap_holdings = Some []\<rparr>),
       (''holdings_2024-01-02.json'',
          Some \<lparr>snap_date = Some ''2024-01-02'', snap_holdings = Some []\<rparr>)]
     = Some \<lparr>snap_date = Some ''2024-01-02'', snap_holdings = Some []\<rparr>
   \<and> (\<exists>(f :: string \<times> snapshot option) (newest :: string \<times> snapshot option).
         load_previous_holdings
           [(''holdings_2024-01-01.json'',
               Some \<lparr>snap_date = Some ''2024-01-01'', snap_holdings = Some []\<rparr>),
            (''report_2024-01-03.txt'', None),
            (''holdings_2024-01-03.json'',
               Some \<lparr>snap_date = Some ''2024-01-03'', snap_holdings = Some []\<rparr>),
            (''holdings_2024-01-02.json'',
               Some \<lparr>snap_date = Some ''2024-01-02'', snap_holdings = Some []\<rparr>)]
           = snd f
         \<and> fst f < fst newest)
   \<and> distinct (map fst
        [(''holdings_2024-01-03.json'',
            Some \<lparr>snap_date = Some ''2024-01-03'', snap_holdings = Some []\<rparr>)])
   \<and> load_previous_holdings
        [(''holdings_2024-01-03.json'',
            Some \<lparr>snap_date = Some ''2024-01-03'', snap_holdings = Some []\<rparr>)] = None
   \<and> compare_holdings example_runtime ''2024-01-03''
        [[FStr ''AAA'', FStr ''Alpha'', FStr ''5.00'']]
        (load_previous_holdings
          [(''holdings_2024-01-03.json'',
              Some \<lparr>snap_date = Some ''2024-01-03'', snap_holdings = Some []\<rparr>)])
       = Inr (FirstRun 1)"
proof -
  let ?A = "[(''holdings_2024-01-01.json'',
          Some \<lparr>snap_date = Some ''2024-01-01'', snap_holdings = Some []\<rparr>),
       (''report_2024-01-03.txt'', None),
       (''holdings_2024-01-03.json'',
          Some \<lparr>snap_date = Some ''2024-01-03'', snap_holdings = Some []\<rparr>),
       (''holdings_2024-01-02.json'',
          Some \<lparr>snap_date = Some ''2024-01-02'', snap_holdings = Some []\<rparr>)]"
  let ?B = "[(''holdings_2024-01-03.json'',
            Some \<lparr>snap_date = Some ''2024-01-03'', snap_holdings = Some []\<rparr>)]"
  let ?cur = "[[FStr ''AAA'', FStr ''Alpha'', FStr ''5.00'']]"
  have dA: "distinct (map fst ?A)" by simp
  have dB: "distinct (map fst ?B)" by simp
  have nA: "\<not> length (glob_holdings ?A) < 2" by code_simp
  have nB: "length (glob_holdings ?B) < 2" by code_simp
  have lA: "load_previous_holdings ?A
              = Some \<lparr>snap_date = Some ''2024-01-02'', snap_holdings = Some []\<rparr>"
    by code_simp
  note tA = load_previous_second_most_recent[OF dA, of example_runtime "''2024-01-03''" ?cur]
  note tB = load_previous_second_most_recent[OF dB, of example_runtime "''2024-01-03''" ?cur]
  have eA: "\<exists>(f :: string \<times> snapshot option) (newest :: string \<times> snapshot option).
      load_previous_holdings ?A = snd f \<and> fst f < fst newest"
    using tA[THEN conjunct1, unfolded if_not_P[OF nA]]
    by (elim exE conjE) (intro exI conjI, assumption+)
  have lB: "load_previous_holdings ?B = None"
    using tB[THEN conjunct1, unfolded if_P[OF nB]] .
  have cB: "compare_holdings example_runtime ''2024-01-03'' ?cur (load_previous_holdings ?B)
               = Inr (FirstRun (length ?cur))"
    using tB[THEN conjunct2, THEN mp, OF lB] .
  from cB have cB': "compare_holdings example_runtime ''2024-01-03'' ?cur
               (load_previous_holdings ?B) = Inr (FirstRun 1)"
    by simp
  from dA lA eA dB lB cB' show ?thesis by (intro conjI)
qed


text \<open>
  Claim C7. In a successful comparison the tickers of \<open>new_holdings\<close> are exactly the
  tickers of the current mapping that the previous mapping lacks, and the tickers of
  \<open>removed_holdings\<close> exactly those of the previous mapping that the current one lacks.
  No ticker is in both lists or twice in one, and each entry carries the name recorded by
  the snapshot that has the ticker.
\<close>

theorem new_and_removed_holdings:
  assumes "iterates_sets rt"
    and "compare_holdings rt today cur (Some prev) = Inr (Success r)"
  shows "ticker ` set (new_holdings r)
           = dom (map_of (extract_info cur)) - dom (map_of (extract_info (get_holdings prev)))
       \<and> ticker ` set (removed_holdings r)
           = dom (map_of (extract_info (get_holdings prev))) - dom (map_of (extract_info cur))
       \<and> ticker ` set (new_holdings r) \<inter> ticker ` set (removed_holdings r) = {}
       \<and> distinct (map ticker (new_holdings r))
       \<and> distinct (map ticker (removed_holdings r))
       \<and> (\<forall>h \<in> set (new_holdings r).
            \<exists>i. map_of (extract_info cur) (ticker h) = Some i \<and> name h = name i)
       \<and> (\<forall>h \<in> set (removed_holdings r).
            \<exists>i. map_of (extract_info (get_holdings prev)) (ticker h) = Some i
                 \<and> name h = name i)"
proof -
  let ?ci = "extract_info cur" and ?pi = "extract_info (get_holdings prev)"
  let ?new = "set_order rt (set_difference (map fst ?ci) (map fst ?pi))"
  let ?rem = "set_order rt (set_difference (map fst ?pi) (map fst ?ci))"
  note f = compare_success_fields[OF assms]
  have tn: "map ticker (new_holdings r) = ?new"
    unfolding f(2) by (simp add: comp_def)
  have tr: "map ticker (removed_holdings r) = ?rem"
    unfolding f(3) by (simp add: comp_def)
  have sn: "set ?new = dom (map_of ?ci) - dom (map_of ?pi)"
    by (simp add: set_set_order[OF assms(1)] set_set_difference dom_map_of_conv_image_fst)
  have sr: "set ?rem = dom (map_of ?pi) - dom (map_of ?ci)"
    by (simp add: set_set_order[OF assms(1)] set_set_difference dom_map_of_conv_image_fst)
  have a: "ticker ` set (new_holdings r) = dom (map_of ?ci) - dom (map_of ?pi)"
    using tn sn by (metis set_map)
  have b: "ticker ` set (removed_holdings r) = dom (map_of ?pi) - dom (map_of ?ci)"
    using tr sr by (metis set_map)
  have c: "ticker ` set (new_holdings r) \<inter> ticker ` set (removed_holdings r) = {}"
    unfolding a b by blast
  have d: "distinct (map ticker (new_holdings r))"
    unfolding tn
    by (simp add: distinct_set_order[OF assms(1)] distinct_set_difference distinct_extract_info)
  have e: "distinct (map ticker (removed_holdings r))"
    unfolding tr
    by (simp add: distinct_set_order[OF assms(1)] distinct_set_difference distinct_extract_info)
  have g: "\<forall>h \<in> set (new_holdings r).
            \<exists>i. map_of ?ci (ticker h) = Some i \<and> name h = name i"
  proof
    fix h assume "h \<in> set (new_holdings r)"
    then obtain t where t: "t \<in> set ?new"
      and h: "h = \<lparr>name = name (the (map_of ?ci t)), ticker = t\<rparr>"
      unfolding f(2) by auto
    from t sn have "t \<in> dom (map_of ?ci)" by blast
    then obtain i where "map_of ?ci t = Some i" by blast
    with h have "map_of ?ci (ticker h) = Some i \<and> name h = name i" by simp
    then show "\<exists>i. map_of ?ci (ticker h) = Some i \<and> name h = name i" ..
  qed
  have k: "\<forall>h \<in> set (removed_holdings r).
            \<exists>i. map_of ?pi (ticker h) = Some i \<and> name h = name i"
  proof
    fix h assume "h \<in> set (removed_holdings r)"
    then obtain t where t: "t \<in> set ?rem"
      and h: "h = \<lparr>name = name (the (map_of ?pi t)), ticker = t\<rparr>"
      unfolding f(3) by auto
    from t sr have "t \<in> dom (map_of ?pi)" by blast
    then obtain i where "map_of ?pi t = Some i" by blast
    with h have "map_of ?pi (ticker h) = Some i \<and> name h = name i" by simp
    then show "\<exists>i. map_of ?pi (ticker h) = Some i \<and> name h = name i" ..
  qed
  from a b c d e g k show ?thesis by blast
qed

theorem new_and_removed_holdings_witness:
  "iterates_sets example_runtime
   \<and> compare_holdings example_runtime ''2024-01-02''
       [[FStr ''AAPL'', FStr ''Apple'', FStr ''5.02''],
        [FStr ''GOOG'', FStr ''Alphabet'', FStr ''3.00'']]
       (Some \<lparr>snap_date = Some ''2024-01-01'',
              snap_holdings = Some [[FStr ''AAPL'', FStr ''Apple'', FStr ''5.00''],
                                    [FStr ''MSFT'', FStr ''Microsoft'', FStr ''4.00'']]\<rparr>)
     = Inr (Success \<lparr>date = ''2024-01-02'', previous_date = ''2024-01-01'',
          total_holdings = 2,
          new_holdings = [\<lparr>name = FStr ''Alphabet'', ticker = FStr ''GOOG''\<rparr>],
          removed_holdings = [\<lparr>name = FStr ''Microsoft'', ticker = FStr ''MSFT''\<rparr>],
          weight_changes = [\<lparr>name = FStr ''Apple'', ticker = FStr ''AAPL'',
              previous_weight = 5, current_weight = 251 / 50, change = 1 / 50\<rparr>],
          significant_changes = 3\<rparr>)
   \<and> ticker ` set [\<lparr>name = FStr ''Alphabet'', ticker = FStr ''GOOG''\<rparr>]
       = dom (map_of (extract_info [[FStr ''AAPL'', FStr ''Apple'', FStr ''5.02''],
                                    [FStr ''GOOG'', FStr ''Alphabet'', FStr ''3.00'']]))
         - dom (map_of (extract_info [[FStr ''AAPL'', FStr ''Apple'', FStr ''5.00''],
                                      [FStr ''MSFT'', FStr ''Microsoft'', FStr ''4.00'']]))"
proof -
  let ?cur = "[[FStr ''AAPL'', FStr ''Apple'', FStr ''5.02''],
        [FStr ''GOOG'', FStr ''Alphabet'', FStr ''3.00'']]"
  let ?hs = "[[FStr ''AAPL'', FStr ''Apple'', FStr ''5.00''],
              [FStr ''MSFT'', FStr ''Microsoft'', FStr ''4.00'']]"
  let ?prev = "\<lparr>snap_date = Some ''2024-01-01'', snap_holdings = Some ?hs\<rparr>"
  let ?r = "\<lparr>date = ''2024-01-02'', previous_date = ''2024-01-01'',
          total_holdings = 2,
          new_holdings = [\<lparr>name = FStr ''Alphabet'', ticker = FStr ''GOOG''\<rparr>],
          removed_holdings = [\<lparr>name = FStr ''Microsoft'', ticker = FStr ''MSFT''\<rparr>],
          weight_changes = [\<lparr>name = FStr ''Apple'', ticker = FStr ''AAPL'',
              previous_weight = 5, current_weight = 251 / 50, change = 1 / 50 :: rat\<rparr>],
          significant_changes = 3\<rparr>"
  have h1: "iterates_sets example_runtime" by (rule iterates_sets_example)
  have h2: "compare_holdings example_runtime ''2024-01-02'' ?cur (Some ?prev)
              = Inr (Success ?r)"
    by code_simp
  have g: "get_holdings ?prev = ?hs" by (simp add: get_holdings_def)
  from new_and_removed_holdings[OF h1 h2, unfolded g]
  have "ticker ` set (new_holdings ?r)
          = dom (map_of (extract_info ?cur)) - dom (map_of (extract_info ?hs))"
    by (rule conjunct1)
  then have "ticker ` set [\<lparr>name = FStr ''Alphabet'', ticker = FStr ''GOOG''\<rparr>]
          = dom (map_of (extract_info ?cur)) - dom (map_of (extract_info ?hs))"
    by (simp only: success.simps)
  with h1 h2 show ?thesis by blast
qed


text \<open>
  Claim C8. The rows are folded into the mapping from left to right, and for a ticker
  carried by several rows of at least three fields the mapping holds the name and the
  weight of the last of them.
\<close>

theorem last_row_wins:
  assumes "3 \<le> length h"
    and "\<forall>g \<in> set post. 3 \<le> length g \<longrightarrow> g ! 0 \<noteq> h ! 0"
  shows "map_of (extract_info (pre @ h # post)) (h ! 0) = Some \<lparr>name = h ! 1, weight = h ! 2\<rparr>
       \<and> extract_info (pre @ [h]) = extract_row (extract_info pre) h"
  using assms
  by (simp add: extract_info_def map_of_foldl_extract_other map_of_extract_row)

theorem last_row_wins_witness:
  "3 \<le> length [FStr ''JPM'', FStr ''JPMorgan Chase'', FStr ''9.10'']
   \<and> [FStr ''BAC'', FStr ''Bank of America'', FStr ''4.00''] ! 0 \<noteq> FStr ''JPM''
   \<and> \<not> 3 \<le> length [FStr ''JPM'']
   \<and> map_of (extract_info
        ([[FStr ''JPM'', FStr ''JP Morgan'', FStr ''9.00'']] @
         [FStr ''JPM'', FStr ''JPMorgan Chase'', FStr ''9.10''] #
         [[FStr ''BAC'', FStr ''Bank of America'', FStr ''4.00''], [FStr ''JPM'']]))
        (FStr ''JPM'')
      = Some \<lparr>name = FStr ''JPMorgan Chase'', weight = FStr ''9.10''\<rparr>"
proof -
  let ?h = "[FStr ''JPM'', FStr ''JPMorgan Chase'', FStr ''9.10'']"
  let ?post = "[[FStr ''BAC'', FStr ''Bank of America'', FStr ''4.00''], [FStr ''JPM'']]"
  have h1: "3 \<le> length ?h" by simp
  have h2: "\<forall>g \<in> set ?post. 3 \<le> length g \<longrightarrow> g ! 0 \<noteq> ?h ! 0" by simp
  have n: "?h ! 0 = FStr ''JPM''" "?h ! 1 = FStr ''JPMorgan Chase''" "?h ! 2 = FStr ''9.10''"
    by simp_all
  from last_row_wins[OF h1 h2, of "[[FStr ''JPM'', FStr ''JP Morgan'', FStr ''9.00'']]"]
  have "map_of (extract_info
        ([[FStr ''JPM'', FStr ''JP Morgan'', FStr ''9.00'']] @ ?h # ?post)) (FStr ''JPM'')
      = Some \<lparr>name = FStr ''JPMorgan Chase'', weight = FStr ''9.10''\<rparr>"
    unfolding n by (rule conjunct1)
  moreover have "[FStr ''BAC'', FStr ''Bank of America'', FStr ''4.00''] ! 0 \<noteq> FStr ''JPM''"
    and "\<not> 3 \<le> length [FStr ''JPM'']"
    by simp_all
  ultimately show ?thesis using h1 by blast
qed


text \<open>
  Claim C9. The report of a successful comparison has one ticker line and one weight line
  for each of the first ten entries of \<open>weight_changes\<close>, in their order, and for no
  other entry. It has a line \<^verbatim>\<open>... and N more weight changes\<close> exactly when there are
  more than ten entries, with \<open>N\<close> the number of entries beyond the tenth, and that line
  comes right after the ten entries. When the comparison counts no significant change the
  report is the heading, the notice that nothing changed and the footer: it has no block
  of new holdings, of removed holdings or of weight changes.
\<close>

theorem report_top_ten_and_no_changes:
  "[(u, t). WeightTicker u t \<leftarrow> generate_report now (Success c)]
     = map (\<lambda>w. (0 < change w, ticker w)) (take 10 (weight_changes c))
   \<and> [(p, q, d). WeightLine p q d \<leftarrow> generate_report now (Success c)]
     = map (\<lambda>w. (previous_weight w, current_weight w, change w)) (take 10 (weight_changes c))
   \<and> length [(u, t). WeightTicker u t \<leftarrow> generate_report now (Success c)] \<le> 10
   \<and> [n. MoreChanges n \<leftarrow> generate_report now (Success c)]
     = (if 10 < length (weight_changes c) then [length (weight_changes c) - 10] else [])
   \<and> (weight_changes c \<noteq> [] \<longrightarrow>
        suffix ([NlDashes, WeightHeader, Dashes] @ weight_items (take 10 (weight_changes c)) @
                (if 10 < length (weight_changes c)
                 then [MoreChanges (length (weight_changes c) - 10)] else []) @
                (if significant_changes c = 0 then [NlDashes, NoChanges, Dashes] else []) @
                [NlRule, Generated now, Rule])
               (generate_report now (Success c)))
   \<and> (iterates_sets rt \<and> compare_holdings rt today cur (Some prev) = Inr (Success c)
        \<and> significant_changes c = 0 \<longrightarrow>
        generate_report now (Success c) =
          [Rule, Title, Rule, ReportDate (date c), ComparingWith (previous_date c),
           TotalHoldings (total_holdings c), TotalChanges 0,
           NlDashes, NoChanges, Dashes, NlRule, Generated now, Rule])"
proof -
  have len: "length [(u, t). WeightTicker u t \<leftarrow> generate_report now (Success c)] \<le> 10"
    unfolding report_weight_tickers by simp
  show ?thesis
    using report_weight_tickers[of now c] report_weight_lines[of now c] len
      report_more_changes[of now c] report_weight_block[of c now]
      report_no_changes[of rt today cur prev c now]
    by (intro conjI impI) (assumption | elim conjE)+
qed

theorem report_top_ten_and_no_changes_witness:
  "iterates_sets example_runtime
   \<and> compare_holdings example_runtime ''2024-01-02''
        [[FStr ''AAA'', FStr ''Alpha'', FStr ''5.00'']]
        (Some \<lparr>snap_date = Some ''2024-01-01'',
               snap_holdings = Some [[FStr ''AAA'', FStr ''Alpha'', FStr ''5.00'']]\<rparr>)
      = Inr (Success \<lparr>date = ''2024-01-02'', previous_date = ''2024-01-01'',
           total_holdings = 1, new_holdings = [], removed_holdings = [],
           weight_changes = [], significant_changes = 0\<rparr>)
   \<and> generate_report ''2024-01-02 09:00:00 UTC''
        (Success \<lparr>date = ''2024-01-02'', previous_date = ''2024-01-01'',
           total_holdings = 1, new_holdings = [], removed_holdings = [],
           weight_changes = [], significant_changes = 0\<rparr>)
      = [Rule, Title, Rule, ReportDate ''2024-01-02'', ComparingWith ''2024-01-01'',
         TotalHoldings 1, TotalChanges 0, NlDashes, NoChanges, Dashes,
         NlRule, Generated ''2024-01-02 09:00:00 UTC'', Rule]
   \<and> [n. MoreChanges n \<leftarrow> generate_report ''2024-01-02 09:00:00 UTC''
        (Success \<lparr>date = ''2024-01-02'', previous_date = ''2024-01-01'',
           total_holdings = 12, new_holdings = [], removed_holdings = [],
           weight_changes = replicate 12 \<lparr>name = FStr ''Alpha'', ticker = FStr ''AAA'',
              previous_weight = 5, current_weight = 6, change = 1\<rparr>,
           significant_changes = 12\<rparr>)] = [2]
   \<and> [(u, t). WeightTicker u t \<leftarrow> generate_report ''2024-01-02 09:00:00 UTC''
        (Success \<lparr>date = ''2024-01-02'', previous_date = ''2024-01-01'',
           total_holdings = 12, new_holdings = [], removed_holdings = [],
           weight_changes = replicate 12 \<lparr>name = FStr ''Alpha'', ticker = FStr ''AAA'',
              previous_weight = 5, current_weight = 6, change = 1\<rparr>,
           significant_changes = 12\<rparr>)] = replicate 10 (True, FStr ''AAA'')
   \<and> suffix [MoreChanges 2, NlRule, Generated ''2024-01-02 09:00:00 UTC'', Rule]
        (generate_report ''2024-01-02 09:00:00 UTC''
          (Success \<lparr>date = ''2024-01-02'', previous_date = ''2024-01-01'',
             total_holdings = 12, new_holdings = [], removed_holdings = [],
             weight_changes = replicate 12 \<lparr>name = FStr ''Alpha'', ticker = FStr ''AAA'',
                previous_weight = 5, current_weight = 6, change = 1\<rparr>,
             significant_changes = 12\<rparr>))"
proof -
  let ?hs = "[[FStr ''AAA'', FStr ''Alpha'', FStr ''5.00'']]"
  let ?prev = "\<lparr>snap_date = Some ''2024-01-01'', snap_holdings = Some ?hs\<rparr>"
  let ?c = "\<lparr>date = ''2024-01-02'', previous_date = ''2024-01-01'',
           total_holdings = 1, new_holdings = [], removed_holdings = [],
           weight_changes = [], significant_changes = 0\<rparr>"
  let ?w = "\<lparr>name = FStr ''Alpha'', ticker = FStr ''AAA'',
              previous_weight = 5, current_weight = 6, change = 1 :: rat\<rparr>"
  let ?d = "\<lparr>date = ''2024-01-02'', previous_date = ''2024-01-01'',
           total_holdings = 12, new_holdings = [], removed_holdings = [],
           weight_changes = replicate 12 ?w, significant_changes = 12\<rparr>"
  let ?now = "''2024-01-02 09:00:00 UTC''"
  have h1: "iterates_sets example_runtime" by (rule iterates_sets_example)
  have h2: "compare_holdings example_runtime ''2024-01-02'' ?hs (Some ?prev) = Inr (Success ?c)"
    by code_simp
  have h3: "significant_changes ?c = 0" by simp
  note t1 = report_top_ten_and_no_changes[of ?now ?c example_runtime "''2024-01-02''" ?hs ?prev]
  from t1 h1 h2 h3 have a: "generate_report ?now (Success ?c) =
          [Rule, Title, Rule, ReportDate (date ?c), ComparingWith (previous_date ?c),
           TotalHoldings (total_holdings ?c), TotalChanges 0,
           NlDashes, NoChanges, Dashes, NlRule, Generated ?now, Rule]"
    by blast
  then have a': "generate_report ?now (Success ?c) =
      [Rule, Title, Rule, ReportDate ''2024-01-02'', ComparingWith ''2024-01-01'',
         TotalHoldings 1, TotalChanges 0, NlDashes, NoChanges, Dashes,
         NlRule, Generated ?now, Rule]"
    by simp
  note t2 = report_top_ten_and_no_changes[of ?now ?d example_runtime "''2024-01-02''" ?hs ?prev]
  from t2 have b: "[n. MoreChanges n \<leftarrow> generate_report ?now (Success ?d)]
     = (if 10 < length (weight_changes ?d) then [length (weight_changes ?d) - 10] else [])"
    by (elim conjE)
  have b': "[n. MoreChanges n \<leftarrow> generate_report ?now (Success ?d)] = [2]"
    unfolding b by simp
  from t2 have c: "[(u, t). WeightTicker u t \<leftarrow> generate_report ?now (Success ?d)]
     = map (\<lambda>w. (0 < change w, ticker w)) (take 10 (weight_changes ?d))"
    by (elim conjE)
  have c': "[(u, t). WeightTicker u t \<leftarrow> generate_report ?now (Success ?d)]
     = replicate 10 (True, FStr ''AAA'')"
    unfolding c by (simp add: map_replicate)
  have ne: "weight_changes ?d \<noteq> []" by simp
  from t2 ne have "suffix ([NlDashes, WeightHeader, Dashes] @
                weight_items (take 10 (weight_changes ?d)) @
                (if 10 < length (weight_changes ?d)
                 then [MoreChanges (length (weight_changes ?d) - 10)] else []) @
                (if significant_changes ?d = 0 then [NlDashes, NoChanges, Dashes] else []) @
                [NlRule, Generated ?now, Rule])
               (generate_report ?now (Success ?d))"
    by blast
  then have "suffix (([NlDashes, WeightHeader, Dashes] @
                weight_items (take 10 (weight_changes ?d))) @
                [MoreChanges 2, NlRule, Generated ?now, Rule])
               (generate_report ?now (Success ?d))"
    by simp
  then have s: "suffix [MoreChanges 2, NlRule, Generated ?now, Rule]
               (generate_report ?now (Success ?d))"
    by (rule suffix_appendD)
  from h1 h2 a' b' c' s show ?thesis by (intro conjI)
qed


text \<open>
  Claim C10. Every entry of \<open>weight_changes\<close> carries the name that the mapping of the
  current snapshot records for its ticker, whatever the previous snapshot calls it.
\<close>

theorem weight_change_name_from_current:
  assumes "iterates_sets rt"
    and "compare_holdings rt today cur (Some prev) = Inr (Success r)"
    and "w \<in> set (weight_changes r)"
  shows "\<exists>c. map_of (extract_info cur) (ticker w) = Some c \<and> name w = name c"
proof -
  let ?ci = "extract_info cur" and ?pi = "extract_info (get_holdings prev)"
  let ?both = "set_order rt (set_intersection (map fst ?ci) (map fst ?pi))"
  from assms(3) have "w \<in> set (entries rt ?ci ?pi ?both)"
    unfolding compare_success_fields(1)[OF assms(1,2)] set_sorted_reverse .
  then obtain t where "t \<in> set ?both"
    and e: "weight_entry rt t (the (map_of ?ci t)) (the (map_of ?pi t)) = Some w"
    unfolding set_map_filter by blast
  then have t: "t \<in> fst ` set ?ci"
    unfolding in_both[OF assms(1)] by simp
  have c: "map_of ?ci t = Some (the (map_of ?ci t))"
    using t by (rule map_of_key)
  from weight_entry_Some[OF e] have "ticker w = t" "name w = name (the (map_of ?ci t))"
    by simp_all
  with c have "map_of ?ci (ticker w) = Some (the (map_of ?ci t)) \<and> name w = name (the (map_of ?ci t))"
    by simp
  then show ?thesis ..
qed

theorem weight_change_name_from_current_witness:
  "iterates_sets example_runtime
   \<and> compare_holdings example_runtime ''2024-01-02''
       [[FStr ''JPM'', FStr ''JPMorgan Chase'', FStr ''9.10%'']]
       (Some \<lparr>snap_date = Some ''2024-01-01'',
              snap_holdings = Some [[FStr ''JPM'', FStr ''JP Morgan'', FStr ''9.00%'']]\<rparr>)
     = Inr (Success \<lparr>date = ''2024-01-02'', previous_date = ''2024-01-01'',
          total_holdings = 1, new_holdings = [], removed_holdings = [],
          weight_changes = [\<lparr>name = FStr ''JPMorgan Chase'', ticker = FStr ''JPM'',
              previous_weight = 9, current_weight = 91 / 10, change = 1 / 10\<rparr>],
          significant_changes = 1\<rparr>)
   \<and> (\<exists>c. map_of (extract_info [[FStr ''JPM'', FStr ''JPMorgan Chase'', FStr ''9.10%'']])
            (FStr ''JPM'') = Some c
          \<and> FStr ''JPMorgan Chase'' = name c)"
proof -
  let ?cur = "[[FStr ''JPM'', FStr ''JPMorgan Chase'', FStr ''9.10%'']]"
  let ?prev = "\<lparr>snap_date = Some ''2024-01-01'',
              snap_holdings = Some [[FStr ''JPM'', FStr ''JP Morgan'', FStr ''9.00%'']]\<rparr>"
  let ?w = "\<lparr>name = FStr ''JPMorgan Chase'', ticker = FStr ''JPM'',
              previous_weight = 9, current_weight = 91 / 10, change = 1 / 10 :: rat\<rparr>"
  let ?r = "\<lparr>date = ''2024-01-02'', previous_date = ''2024-01-01'',
          total_holdings = 1, new_holdings = [], removed_holdings = [],
          weight_changes = [?w], significant_changes = 1\<rparr>"
  have h1: "iterates_sets example_runtime" by (rule iterates_sets_example)
  have h2: "compare_holdings example_runtime ''2024-01-02'' ?cur (Some ?prev)
              = Inr (Success ?r)"
    by code_simp
  have h3: "?w \<in> set (weight_changes ?r)" by simp
  from weight_change_name_from_current[OF h1 h2 h3]
  have "\<exists>c. map_of (extract_info ?cur) (FStr ''JPM'') = Some c
          \<and> FStr ''JPMorgan Chase'' = name c"
    by simp
  with h1 h2 show ?thesis by blast
qed

end
